theory Spec2Isabelle
  imports Main "HOL-Library.Multiset"
begin

section \<open>Strings\<close>

text \<open>
  JavaScript strings are modelled as \<^typ>\<open>string\<close>, one \<^typ>\<open>char\<close> per code unit.
  Strings with a code unit above 255 are outside the model, and so are strings with one
  of the two code units below 256 whose upper case lies above 255 (U+00B5 and U+00FF):
  the model leaves these two as they are. An absent (\<^verbatim>\<open>undefined\<close>) property of a
  request body is \<open>None\<close>.
\<close>

text \<open>
  The upper case of one code unit, where it is one code unit again: the letters a to z
  and the Latin-1 letters U+00E0 to U+00FE but the division sign U+00F7. This is also how
  a regular expression under the flag \<^verbatim>\<open>i\<close> compares code units.
\<close>

definition toUpperChar :: "char \<Rightarrow> char" where
  "toUpperChar c =
     (let n = (of_char c :: nat)
      in if (97 \<le> n \<and> n \<le> 122) \<or> (224 \<le> n \<and> n \<le> 254 \<and> n \<noteq> 247)
         then char_of (n - 32) else c)"

text \<open>\<^verbatim>\<open>String.prototype.toUpperCase\<close>: the sharp s (U+00DF) becomes two letters.\<close>

definition toUpperCase :: "string \<Rightarrow> string" where
  "toUpperCase s =
     concat (map (\<lambda>c. if (of_char c :: nat) = 223 then ''SS'' else [toUpperChar c]) s)"

text \<open>\<^verbatim>\<open>String.prototype.trim\<close>, applied by the schema option \<^verbatim>\<open>trim: true\<close>.\<close>

definition isWhiteSpace :: "char \<Rightarrow> bool" where
  "isWhiteSpace c = ((of_char c :: nat) \<in> {9, 10, 11, 12, 13, 32, 160})"

definition trim :: "string \<Rightarrow> string" where
  "trim s = rev (dropWhile isWhiteSpace (rev (dropWhile isWhiteSpace s)))"

text \<open>Decimal rendering of a number inside a template literal.\<close>

fun show_nat :: "nat \<Rightarrow> string" where
  "show_nat n =
     (if n < 10 then [char_of (48 + n)] else show_nat (n div 10) @ [char_of (48 + n mod 10)])"

declare show_nat.simps [simp del]

definition show_int :: "int \<Rightarrow> string" where
  "show_int i = (if i < 0 then CHR ''-'' # show_nat (nat (- i)) else show_nat (nat i))"

text \<open>\<^verbatim>\<open>${x}\<close> for a possibly absent string.\<close>

definition template_str :: "string option \<Rightarrow> string" where
  "template_str x = (case x of None \<Rightarrow> ''undefined'' | Some s \<Rightarrow> s)"

text \<open>\<^verbatim>\<open>x || d\<close> for a possibly absent string: absent and empty strings are falsy.\<close>

definition falsy :: "string option \<Rightarrow> bool" where
  "falsy x = (x = None \<or> x = Some [])"

definition or_default :: "string option \<Rightarrow> string \<Rightarrow> string" where
  "or_default x d = (case x of None \<Rightarrow> d | Some s \<Rightarrow> if s = [] then d else s)"

section \<open>Regular expressions of \<^verbatim>\<open>threatPatterns.suspiciousSSIDs\<close>\<close>

text \<open>
  Every pattern of the table is a sequence of literal characters with one \<^verbatim>\<open>.?\<close>,
  under the flag \<^verbatim>\<open>i\<close>. \<^verbatim>\<open>.\<close> matches any character but a line terminator;
  \<^verbatim>\<open>test\<close> searches for a match starting at any position.
\<close>

datatype pat_item = Lit char | OptAny

definition isLineTerminator :: "char \<Rightarrow> bool" where
  "isLineTerminator c = ((of_char c :: nat) \<in> {10, 13})"

fun match_here :: "pat_item list \<Rightarrow> string \<Rightarrow> bool" where
  "match_here [] s = True"
| "match_here (Lit c # ps) [] = False"
| "match_here (Lit c # ps) (x # xs) = (toUpperChar x = toUpperChar c \<and> match_here ps xs)"
| "match_here (OptAny # ps) [] = match_here ps []"
| "match_here (OptAny # ps) (x # xs) =
     ((\<not> isLineTerminator x \<and> match_here ps xs) \<or> match_here ps (x # xs))"

fun regex_test :: "pat_item list \<Rightarrow> string \<Rightarrow> bool" where
  "regex_test p [] = match_here p []"
| "regex_test p (x # xs) = (match_here p (x # xs) \<or> regex_test p xs)"

definition pat :: "string \<Rightarrow> string \<Rightarrow> pat_item list" where
  "pat a b = map Lit a @ [OptAny] @ map Lit b"

definition suspiciousSSIDs :: "pat_item list list" where
  "suspiciousSSIDs =
     [pat ''free'' ''wifi'',
      pat ''guest'' ''network'',
      pat ''open'' ''wifi'',
      pat ''wifi'' ''free'',
      map Lit ''hotspot'',
      pat ''android'' ''ap'',
      pat ''iphone'' ''hotspot'',
      pat ''mobile'' ''hotspot'']"

text \<open>\<^verbatim>\<open>threatPatterns.deauthPatterns\<close>\<close>

definition rapidSignalChanges :: int where
  "rapidSignalChanges = 20"

definition highSeenCount :: int where
  "highSeenCount = 100"

section \<open>The data model (\<^verbatim>\<open>NetworkSchema\<close>)\<close>

datatype status = Trusted | Unknown | Suspicious

record history_entry =
  h_rssi :: int
  h_timestamp :: nat

record network =
  nid :: nat
  ssid :: string
  bssid :: string
  rssi :: int
  channel :: int
  encType :: string
  firstSeen :: nat
  lastSeen :: nat
  seenCount :: int
  status :: status
  history :: "history_entry list"
  deviceId :: string

section \<open>\<^verbatim>\<open>ThreatDetector\<close>\<close>

datatype threat_type =
  suspicious_ssid | evil_twin | open_network | signal_anomaly | high_frequency
  | channel_congestion | suspicious_mac

datatype severity = low_severity | medium_severity | high_severity

record threat =
  ttype :: threat_type
  severity :: severity
  description :: string
  details :: string

datatype risk_level = low | medium | high | critical

record recommendation =
  general :: string
  specific :: "string list"

record assessment =
  networkId :: nat
  a_ssid :: string
  a_bssid :: string
  riskLevel :: risk_level
  harmScore :: int
  threats :: "threat list"
  a_recommendation :: recommendation
  isHarmful :: bool
  a_timestamp :: nat

definition checkSuspiciousSSID :: "string \<Rightarrow> threat option" where
  "checkSuspiciousSSID s =
     (if s = [] \<or> s = ''Hidden Network'' then None
      else if list_ex (\<lambda>pattern. regex_test pattern s) suspiciousSSIDs then
        Some \<lparr>ttype = suspicious_ssid, severity = medium_severity,
              description = ''Potentially deceptive network name: \"'' @ s @ ''\"'',
              details = ''This SSID pattern is commonly used by attackers for social engineering''\<rparr>
      else None)"

definition detectEvilTwin :: "network \<Rightarrow> network list \<Rightarrow> threat option" where
  "detectEvilTwin network allNetworks =
     (let similarNetworks =
            filter (\<lambda>n. ssid n = ssid network \<and> bssid n \<noteq> bssid network) allNetworks
      in if length similarNetworks > 0 then
           (let hasWeakerSecurity =
                  list_ex (\<lambda>n. (encType network = ''Open'' \<and> encType n \<noteq> ''Open'') \<or>
                               (encType network = ''WEP'' \<and>
                                  encType n \<in> set [''WPA'', ''WPA2'', ''WPA3'']))
                    similarNetworks
            in if hasWeakerSecurity \<or> encType network = ''Open'' then
                 Some \<lparr>ttype = evil_twin, severity = high_severity,
                       description =
                         ''Potential Evil Twin attack detected for \"'' @ ssid network @ ''\"'',
                       details =
                         ''Found '' @ show_nat (length similarNetworks + 1) @
                         '' networks with same name but different security levels''\<rparr>
               else None)
         else None)"

definition checkOpenNetwork :: "network \<Rightarrow> threat option" where
  "checkOpenNetwork network =
     (if encType network = ''Open'' then
        Some \<lparr>ttype = open_network, severity = medium_severity,
              description = ''Unsecured wireless network detected'',
              details =
                ''Open networks can be used for man-in-the-middle attacks and data interception''\<rparr>
      else None)"

text \<open>\<^verbatim>\<open>xs.slice(-k)\<close>: the last \<open>k\<close> elements, all of them when there are fewer.\<close>

definition slice_last :: "nat \<Rightarrow> 'a list \<Rightarrow> 'a list" where
  "slice_last k xs = drop (length xs - k) xs"

text \<open>
  The average \<^verbatim>\<open>avgSignal\<close> that the source computes is never read and is left out.
  \<^verbatim>\<open>Math.max\<close> and \<^verbatim>\<open>Math.min\<close> are only reached on a list of at least five readings.
\<close>

definition detectSignalAnomalies :: "network \<Rightarrow> history_entry list \<Rightarrow> threat option" where
  "detectSignalAnomalies network historicalData =
     (if length historicalData < 5 then None
      else
        (let recentSignals = map h_rssi (slice_last 10 historicalData);
             signalVariation = Max (set recentSignals) - Min (set recentSignals)
         in if signalVariation > rapidSignalChanges then
              Some \<lparr>ttype = signal_anomaly, severity = medium_severity,
                    description = ''Unusual signal strength fluctuations detected'',
                    details =
                      ''Signal variation of '' @ show_int signalVariation @
                      ''dBm may indicate deauth attacks or jamming''\<rparr>
            else if seenCount network > highSeenCount then
              Some \<lparr>ttype = high_frequency, severity = medium_severity,
                    description = ''Abnormally high detection frequency'',
                    details =
                      ''This network appears unusually often, may indicate probe flooding''\<rparr>
            else None))"

definition detectChannelThreats :: "network \<Rightarrow> network list \<Rightarrow> threat option" where
  "detectChannelThreats network allNetworks =
     (let sameChannelNetworks = filter (\<lambda>n. channel n = channel network) allNetworks
      in if length sameChannelNetworks > 15 then
           Some \<lparr>ttype = channel_congestion, severity = low_severity,
                 description = ''High network density on channel '' @ show_int (channel network),
                 details =
                   show_nat (length sameChannelNetworks) @
                   '' networks detected on same channel''\<rparr>
         else None)"

definition suspiciousPrefixes :: "string list" where
  "suspiciousPrefixes = [''02:00:00'', ''AA:BB:CC'', ''00:11:22'', ''12:34:56'']"

definition startsWith :: "string \<Rightarrow> string \<Rightarrow> bool" where
  "startsWith s p = (take (length p) s = p)"

definition analyzeMACAddress :: "string \<Rightarrow> threat option" where
  "analyzeMACAddress b =
     (if b = [] then None
      else
        (let macPrefix = toUpperCase (take 8 b)
         in if list_ex (\<lambda>prefix. startsWith macPrefix prefix) suspiciousPrefixes then
              Some \<lparr>ttype = suspicious_mac, severity = low_severity,
                    description = ''Potentially spoofed MAC address detected'',
                    details =
                      ''MAC address pattern suggests possible device identity masking''\<rparr>
            else None))"

definition recommendations :: "risk_level \<Rightarrow> string" where
  "recommendations l =
     (case l of
        critical \<Rightarrow>
          ''IMMEDIATE ACTION REQUIRED: Block this network and investigate immediately. High probability of malicious activity.''
      | high \<Rightarrow>
          ''CAUTION: Avoid connecting to this network. Monitor closely and consider blocking.''
      | medium \<Rightarrow>
          ''WARNING: Exercise caution. Verify network legitimacy before connecting.''
      | low \<Rightarrow>
          ''INFO: Minor security concerns detected. Standard security practices recommended.'')"

definition tip :: "threat_type \<Rightarrow> string list" where
  "tip t =
     (case t of
        evil_twin \<Rightarrow> [''Verify with network administrator which is the legitimate network'']
      | open_network \<Rightarrow> [''Use VPN if connection is necessary'']
      | suspicious_ssid \<Rightarrow> [''Verify network legitimacy with venue staff'']
      | signal_anomaly \<Rightarrow> [''Monitor for deauth attacks or jamming attempts'']
      | _ \<Rightarrow> [])"

definition getRecommendation :: "risk_level \<Rightarrow> threat list \<Rightarrow> recommendation" where
  "getRecommendation l ts =
     (let specific = concat (map (\<lambda>t. tip (ttype t)) ts)
      in \<lparr>general = recommendations l,
          specific =
            (if length specific > 0 then specific
             else [''Follow standard WiFi security practices''])\<rparr>)"

text \<open>
  One step of \<^verbatim>\<open>assessThreat\<close>: \<^verbatim>\<open>if (t) { threats.push(t); harmScore += points; }\<close>
  on the pair of the two local variables.
\<close>

definition tally :: "threat option \<Rightarrow> int \<Rightarrow> threat list \<times> int \<Rightarrow> threat list \<times> int" where
  "tally t points acc =
     (case t of None \<Rightarrow> acc | Some x \<Rightarrow> (fst acc @ [x], snd acc + points))"

text \<open>The argument \<open>now\<close> is the value of \<^verbatim>\<open>new Date()\<close> at the call.\<close>

definition assessThreat ::
  "nat \<Rightarrow> network \<Rightarrow> network list \<Rightarrow> history_entry list \<Rightarrow> assessment" where
  "assessThreat now network allNetworks historicalData =
     (let acc0 = ([], 0);
          acc1 = tally (checkSuspiciousSSID (ssid network)) 30 acc0;
          acc2 = tally (detectEvilTwin network allNetworks) 50 acc1;
          acc3 = tally (checkOpenNetwork network) 25 acc2;
          acc4 = tally (detectSignalAnomalies network historicalData) 35 acc3;
          acc5 = tally (detectChannelThreats network allNetworks) 20 acc4;
          acc6 = tally (analyzeMACAddress (bssid network)) 15 acc5;
          threats = fst acc6;
          harmScore = snd acc6;
          riskLevel =
            (if harmScore \<ge> 70 then critical
             else if harmScore \<ge> 40 then high
             else if harmScore \<ge> 20 then medium
             else low)
      in \<lparr>networkId = nid network,
          a_ssid = ssid network,
          a_bssid = bssid network,
          riskLevel = riskLevel,
          harmScore = harmScore,
          threats = threats,
          a_recommendation = getRecommendation riskLevel threats,
          isHarmful = (harmScore \<ge> 40),
          a_timestamp = now\<rparr>)"

section \<open>The store\<close>

text \<open>
  The collection of \<^verbatim>\<open>Network\<close> documents, in the order \<^verbatim>\<open>Network.find({})\<close>
  returns them; a new document is appended. The database engine is not part of the
  repository: its update operators are modelled as its interface documents them.
  Identifiers (\<^verbatim>\<open>_id\<close>) are natural numbers; a new document receives one that no
  stored document has.
\<close>

type_synonym store = "network list"

fun fresh :: "store \<Rightarrow> nat" where
  "fresh [] = 0"
| "fresh (n # ns) = max (Suc (nid n)) (fresh ns)"

fun update_first :: "('a \<Rightarrow> bool) \<Rightarrow> ('a \<Rightarrow> 'a) \<Rightarrow> 'a list \<Rightarrow> 'a list" where
  "update_first P f [] = []"
| "update_first P f (x # xs) = (if P x then f x # xs else x # update_first P f xs)"

text \<open>
  The operand of \<^verbatim>\<open>$push\<close>. With the key \<^verbatim>\<open>$each\<close> the operand lists the elements to
  append and may carry the modifier \<^verbatim>\<open>$slice\<close>. Without \<^verbatim>\<open>$each\<close> the operand is
  itself the one element to append, and a key \<^verbatim>\<open>$slice\<close> in it is one more key of that
  element, which the element schema \<^verbatim>\<open>{rssi, timestamp}\<close> does not keep.
\<close>

datatype push_operand =
    Element int nat "int option"
  | Each "history_entry list" "int option"

definition slice :: "int \<Rightarrow> 'a list \<Rightarrow> 'a list" where
  "slice k xs = (if k < 0 then slice_last (nat (- k)) xs else take (nat k) xs)"

fun push :: "push_operand \<Rightarrow> history_entry list \<Rightarrow> history_entry list" where
  "push (Element r t sl) h = h @ [\<lparr>h_rssi = r, h_timestamp = t\<rparr>]"
| "push (Each es sl) h = (case sl of None \<Rightarrow> h @ es | Some k \<Rightarrow> slice k (h @ es))"

record update =
  u_ssid :: string
  u_rssi :: int
  u_channel :: int
  u_encType :: string
  u_lastSeen :: nat
  u_deviceId :: string
  inc_seenCount :: int
  push_history :: push_operand

definition apply_update :: "update \<Rightarrow> network \<Rightarrow> network" where
  "apply_update u n =
     n\<lparr>ssid := trim (u_ssid u),
       rssi := u_rssi u,
       channel := u_channel u,
       encType := u_encType u,
       lastSeen := u_lastSeen u,
       deviceId := u_deviceId u,
       seenCount := seenCount n + inc_seenCount u,
       history := push (push_history u) (history n)\<rparr>"

text \<open>
  The document an upsert inserts: the filter's \<^verbatim>\<open>bssid\<close>, the schema defaults
  (\<^verbatim>\<open>setDefaultsOnInsert\<close>: \<^verbatim>\<open>status\<close> and \<^verbatim>\<open>firstSeen\<close>), then the update applied
  to it, \<^verbatim>\<open>$inc\<close> and \<^verbatim>\<open>$push\<close> starting from an absent field.
\<close>

definition new_document :: "nat \<Rightarrow> nat \<Rightarrow> string \<Rightarrow> update \<Rightarrow> network" where
  "new_document now i key u =
     apply_update u
       \<lparr>nid = i, ssid = [], bssid = key, rssi = 0, channel = 0, encType = [],
        firstSeen = now, lastSeen = now, seenCount = 0, status = Unknown,
        history = [], deviceId = []\<rparr>"

text \<open>
  \<^verbatim>\<open>Network.findOneAndUpdate({bssid: key}, update, {upsert: true, new: true,
  setDefaultsOnInsert: true})\<close>: the updated or inserted document and the new store.
\<close>

definition findOneAndUpdate :: "nat \<Rightarrow> string \<Rightarrow> update \<Rightarrow> store \<Rightarrow> network \<times> store" where
  "findOneAndUpdate now key u st =
     (case find (\<lambda>n. bssid n = key) st of
        Some n \<Rightarrow> (apply_update u n, update_first (\<lambda>n. bssid n = key) (apply_update u) st)
      | None \<Rightarrow> (let d = new_document now (fresh st) key u in (d, st @ [d])))"

text \<open>\<^verbatim>\<open>Network.findByIdAndUpdate(id, {status}, {new: true})\<close>\<close>

definition findByIdAndUpdate :: "nat \<Rightarrow> status \<Rightarrow> store \<Rightarrow> network option \<times> store" where
  "findByIdAndUpdate i s st =
     (case find (\<lambda>n. nid n = i) st of
        Some n \<Rightarrow> (Some (n\<lparr>status := s\<rparr>),
                   update_first (\<lambda>n. nid n = i) (\<lambda>n. n\<lparr>status := s\<rparr>) st)
      | None \<Rightarrow> (None, st))"

section \<open>\<^verbatim>\<open>POST /scan\<close>\<close>

record report =
  r_ssid :: "string option"
  r_bssid :: "string option"
  r_rssi :: int
  r_channel :: int
  r_encType :: "string option"

record threat_item =
  ti_ssid :: string
  ti_bssid :: string
  ti_riskLevel :: risk_level
  ti_harmScore :: int
  ti_threats :: "threat list"
  ti_recommendation :: recommendation
  ti_isHarmful :: bool

record scan_results =
  processed :: nat
  updated :: nat
  created :: nat
  r_threats :: "threat_item list"
  errors :: "string list"

definition threat_item_of :: "network \<Rightarrow> assessment \<Rightarrow> threat_item" where
  "threat_item_of network a =
     \<lparr>ti_ssid = ssid network, ti_bssid = bssid network, ti_riskLevel = riskLevel a,
      ti_harmScore = harmScore a, ti_threats = threats a,
      ti_recommendation = a_recommendation a, ti_isHarmful = isHarmful a\<rparr>"

text \<open>
  The upsert of one report whose \<^verbatim>\<open>bssid\<close> is present: the filter, the update
  document and the call of \<^verbatim>\<open>findOneAndUpdate\<close>. \<open>now\<close> is the clock reading
  used for every \<^verbatim>\<open>new Date()\<close> of the request.
\<close>

definition upsert :: "nat \<Rightarrow> string \<Rightarrow> report \<Rightarrow> store \<Rightarrow> network \<times> store" where
  "upsert now dev networkData st =
     (let key = toUpperCase (or_default (r_bssid networkData) []);
          upd = \<lparr>u_ssid = or_default (r_ssid networkData) ''Hidden Network'',
                 u_rssi = r_rssi networkData,
                 u_channel = r_channel networkData,
                 u_encType = or_default (r_encType networkData) ''Unknown'',
                 u_lastSeen = now,
                 u_deviceId = dev,
                 inc_seenCount = 1,
                 push_history = Element (r_rssi networkData) now (Some (- 20))\<rparr>
      in findOneAndUpdate now key upd st)"

text \<open>
  The \<^verbatim>\<open>try\<close> block of the loop body, for an item of \<^verbatim>\<open>networks\<close> that is an object.
  \<open>allNetworks\<close> is the local variable of the handler. The store operations of the
  model do not fail and the \<^verbatim>\<open>bssid\<close> of a report is a string or absent, so for such an
  item nothing in the block throws.
\<close>

definition processReport ::
  "nat \<Rightarrow> string \<Rightarrow> network list \<Rightarrow> report \<Rightarrow> store \<times> scan_results \<Rightarrow> store \<times> scan_results"
where
  "processReport now dev allNetworks networkData s =
     (let st = fst s; results = snd s in
      if falsy (r_bssid networkData) then
        (st, results\<lparr>errors := errors results @
               [''Missing BSSID for network: '' @ template_str (r_ssid networkData)]\<rparr>)
      else
        (let network = fst (upsert now dev networkData st);
             st1 = snd (upsert now dev networkData st);
             threatAssessment = assessThreat now network allNetworks (history network);
             st2 = (if isHarmful threatAssessment \<and> status network = Unknown
                    then snd (findByIdAndUpdate (nid network) Suspicious st1) else st1);
             results1 = (if length (threats threatAssessment) > 0
                         then results\<lparr>r_threats := r_threats results @
                                [threat_item_of network threatAssessment]\<rparr>
                         else results);
             results2 = (if seenCount network = 1
                         then results1\<lparr>created := created results1 + 1\<rparr>
                         else results1\<lparr>updated := updated results1 + 1\<rparr>)
         in (st2, results2\<lparr>processed := processed results2 + 1\<rparr>)))"

text \<open>
  An item of \<^verbatim>\<open>networks\<close> is an object (\<open>Some\<close> of a report) or \<^verbatim>\<open>null\<close> (\<open>None\<close>).
  An item that is a number, a string or a boolean has no properties and behaves as a
  report with every property absent. The message of an exception is the text the engine
  (V8) gives it.
\<close>

datatype exception = TypeError string

fun message :: "exception \<Rightarrow> string" where
  "message (TypeError m) = m"

text \<open>
  The \<^verbatim>\<open>try\<close> block for any item: destructuring \<^verbatim>\<open>null\<close> throws before anything is
  done.
\<close>

definition tryBlock ::
  "nat \<Rightarrow> string \<Rightarrow> network list \<Rightarrow> report option \<Rightarrow> store \<times> scan_results
     \<Rightarrow> exception + store \<times> scan_results"
where
  "tryBlock now dev allNetworks networkData s =
     (case networkData of
        None \<Rightarrow>
          Inl (TypeError ''Cannot destructure property 'ssid' of 'networkData' as it is null.'')
      | Some r \<Rightarrow> Inr (processReport now dev allNetworks r s))"

text \<open>
  The \<^verbatim>\<open>catch\<close> block of the loop body: it records the error under the item's
  \<^verbatim>\<open>bssid\<close>. Reading \<^verbatim>\<open>networkData.bssid\<close> of \<^verbatim>\<open>null\<close> throws again, and this second
  exception leaves the loop.
\<close>

definition catchBlock ::
  "report option \<Rightarrow> exception \<Rightarrow> store \<times> scan_results \<Rightarrow> exception + store \<times> scan_results"
where
  "catchBlock networkData e s =
     (case networkData of
        None \<Rightarrow> Inl (TypeError ''Cannot read properties of null (reading 'bssid')'')
      | Some r \<Rightarrow>
          Inr (fst s, (snd s)\<lparr>errors := errors (snd s) @
                 [''Error processing '' @ template_str (r_bssid r) @ '': '' @ message e]\<rparr>))"

text \<open>The body of the loop over the items of one request.\<close>

definition processItem ::
  "nat \<Rightarrow> string \<Rightarrow> network list \<Rightarrow> report option \<Rightarrow> store \<times> scan_results
     \<Rightarrow> exception + store \<times> scan_results"
where
  "processItem now dev allNetworks networkData s =
     (case tryBlock now dev allNetworks networkData s of
        Inr s' \<Rightarrow> Inr s'
      | Inl e \<Rightarrow> catchBlock networkData e s)"

text \<open>
  The loop of the handler: the store it leaves, and the results, or the exception that
  left the loop. What earlier iterations wrote stays in the store.
\<close>

fun scan_items ::
  "nat \<Rightarrow> string \<Rightarrow> network list \<Rightarrow> report option list \<Rightarrow> store \<times> scan_results
     \<Rightarrow> store \<times> (exception + scan_results)"
where
  "scan_items now dev allNetworks [] s = (fst s, Inr (snd s))"
| "scan_items now dev allNetworks (networkData # rest) s =
     (case processItem now dev allNetworks networkData s of
        Inl e \<Rightarrow> (fst s, Inl e)
      | Inr s' \<Rightarrow> scan_items now dev allNetworks rest s')"

text \<open>
  The same loop over reports, that is over a batch whose items are all objects: no
  iteration throws, and every report is processed in turn.
\<close>

fun scan_loop ::
  "nat \<Rightarrow> string \<Rightarrow> network list \<Rightarrow> report list \<Rightarrow> store \<times> scan_results \<Rightarrow> store \<times> scan_results"
where
  "scan_loop now dev allNetworks [] s = s"
| "scan_loop now dev allNetworks (networkData # rest) s =
     scan_loop now dev allNetworks rest (processReport now dev allNetworks networkData s)"

text \<open>The reports of a batch that stand before its first \<^verbatim>\<open>null\<close> item.\<close>

fun reports_before_null :: "report option list \<Rightarrow> report list" where
  "reports_before_null [] = []"
| "reports_before_null (None # rest) = []"
| "reports_before_null (Some r # rest) = r # reports_before_null rest"

datatype http_error =
  BadRequest string | NotFound string | InternalServerError string string

record securitySummary =
  threatsDetected :: nat
  criticalThreats :: nat
  highThreats :: nat
  harmfulNetworks :: nat

record scan_response =
  sr_message :: string
  sr_securitySummary :: securitySummary
  sr_results :: scan_results

definition initial_results :: scan_results where
  "initial_results = \<lparr>processed = 0, updated = 0, created = 0, r_threats = [], errors = []\<rparr>"

text \<open>
  The handler, entered after \<^verbatim>\<open>validateApiKey\<close> has accepted the request. The body's
  \<^verbatim>\<open>networks\<close> is \<open>None\<close> when it is absent or not an array. An exception that leaves
  the loop reaches the handler's own \<^verbatim>\<open>catch\<close>, which answers 500 with its message.
\<close>

definition scan ::
  "nat \<Rightarrow> string option \<Rightarrow> report option list option \<Rightarrow> store
     \<Rightarrow> (http_error + scan_response) \<times> store"
where
  "scan now device networks st =
     (case networks of
        None \<Rightarrow> (Inl (BadRequest ''Invalid payload: networks array required''), st)
      | Some items \<Rightarrow>
          (let dev = (case device of None \<Rightarrow> ''ESP8266_001'' | Some d \<Rightarrow> d);
               allNetworks = st;
               out = scan_items now dev allNetworks items (st, initial_results)
           in case snd out of
                Inl e \<Rightarrow> (Inl (InternalServerError ''Internal server error'' (message e)), fst out)
              | Inr results \<Rightarrow>
                 (Inr \<lparr>sr_message = ''Processed '' @ show_nat (processed results) @ '' networks'',
                    sr_securitySummary =
                      \<lparr>threatsDetected = length (r_threats results),
                       criticalThreats =
                         length (filter (\<lambda>t. ti_riskLevel t = critical) (r_threats results)),
                       highThreats =
                         length (filter (\<lambda>t. ti_riskLevel t = high) (r_threats results)),
                       harmfulNetworks = length (filter ti_isHarmful (r_threats results))\<rparr>,
                    sr_results = results\<rparr>,
                  fst out)))"

section \<open>\<^verbatim>\<open>PATCH /networks/:id/status\<close>\<close>

definition parse_status :: "string \<Rightarrow> status option" where
  "parse_status s =
     (if s = ''trusted'' then Some Trusted
      else if s = ''unknown'' then Some Unknown
      else if s = ''suspicious'' then Some Suspicious
      else None)"

definition patchStatus :: "nat \<Rightarrow> string \<Rightarrow> store \<Rightarrow> (http_error + network) \<times> store" where
  "patchStatus i s st =
     (case parse_status s of
        None \<Rightarrow> (Inl (BadRequest ''Invalid status. Must be: trusted, unknown, or suspicious''), st)
      | Some v \<Rightarrow>
          (case findByIdAndUpdate i v st of
             (None, st') \<Rightarrow> (Inl (NotFound ''Network not found''), st')
           | (Some network, st') \<Rightarrow> (Inr network, st')))"

section \<open>\<^verbatim>\<open>GET /threats\<close>\<close>

fun collect :: "nat \<Rightarrow> network list \<Rightarrow> network list \<Rightarrow> assessment list \<Rightarrow> assessment list" where
  "collect now networks [] acc = acc"
| "collect now networks (network # rest) acc =
     (let threatAssessment = assessThreat now network networks (history network)
      in collect now networks rest
           (if length (threats threatAssessment) > 0 \<or> harmScore threatAssessment > 0
            then acc @ [threatAssessment] else acc))"

record summary =
  critical_count :: nat
  high_count :: nat
  medium_count :: nat
  low_count :: nat
  harmful_count :: nat

record threats_response =
  totalNetworks :: nat
  threatsAnalyzed :: nat
  tr_summary :: summary
  tr_threats :: "assessment list"

text \<open>
  \<^verbatim>\<open>threats.sort((a, b) => b.harmScore - a.harmScore)\<close>: \<^verbatim>\<open>Array.prototype.sort\<close>
  is stable, and with this comparator it orders by descending \<^verbatim>\<open>harmScore\<close>.
\<close>

definition getThreats :: "nat \<Rightarrow> store \<Rightarrow> threats_response" where
  "getThreats now st =
     (let networks = st;
          found = collect now networks networks [];
          sorted_threats = sort_key (\<lambda>a. - harmScore a) found
      in \<lparr>totalNetworks = length networks,
          threatsAnalyzed = length sorted_threats,
          tr_summary =
            \<lparr>critical_count = length (filter (\<lambda>t. riskLevel t = critical) sorted_threats),
             high_count = length (filter (\<lambda>t. riskLevel t = high) sorted_threats),
             medium_count = length (filter (\<lambda>t. riskLevel t = medium) sorted_threats),
             low_count = length (filter (\<lambda>t. riskLevel t = low) sorted_threats),
             harmful_count = length (filter isHarmful sorted_threats)\<rparr>,
          tr_threats = sorted_threats\<rparr>)"

section \<open>Auxiliary definitions\<close>

text \<open>What one detector result adds to the findings and to the score.\<close>

definition findings_of :: "threat option \<Rightarrow> threat list" where
  "findings_of t = (case t of None \<Rightarrow> [] | Some x \<Rightarrow> [x])"

definition points_of :: "threat option \<Rightarrow> int \<Rightarrow> int" where
  "points_of t p = (case t of None \<Rightarrow> 0 | Some x \<Rightarrow> p)"

text \<open>
  The order of encryption strength used to describe the evil-twin detector:
  Open below WEP below WPA, WPA2 and WPA3; any other value is not comparable.
\<close>

definition enc_rank :: "string \<Rightarrow> nat option" where
  "enc_rank e =
     (if e = ''Open'' then Some 0
      else if e = ''WEP'' then Some 1
      else if e = ''WPA'' \<or> e = ''WPA2'' \<or> e = ''WPA3'' then Some 2
      else None)"

definition strictly_stronger :: "string \<Rightarrow> string \<Rightarrow> bool" where
  "strictly_stronger a b =
     (case enc_rank a of None \<Rightarrow> False
      | Some x \<Rightarrow> (case enc_rank b of None \<Rightarrow> False | Some y \<Rightarrow> y < x))"

definition sibling :: "network \<Rightarrow> network \<Rightarrow> bool" where
  "sibling t n = (ssid n = ssid t \<and> bssid n \<noteq> bssid t)"

text \<open>Reading the store: the status stored under an identifier, and under a \<^verbatim>\<open>bssid\<close>
  the number of history entries and the observation counter.\<close>

definition status_of :: "nat \<Rightarrow> store \<Rightarrow> status option" where
  "status_of i st = map_option status (find (\<lambda>n. nid n = i) st)"

definition history_len :: "string \<Rightarrow> store \<Rightarrow> nat" where
  "history_len key st =
     (case find (\<lambda>n. bssid n = key) st of None \<Rightarrow> 0 | Some n \<Rightarrow> length (history n))"

definition seen_count :: "string \<Rightarrow> store \<Rightarrow> int" where
  "seen_count key st =
     (case find (\<lambda>n. bssid n = key) st of None \<Rightarrow> 0 | Some n \<Rightarrow> seenCount n)"

text \<open>Two results of a batch agree on everything but the error list.\<close>

definition same_counts :: "scan_results \<Rightarrow> scan_results \<Rightarrow> bool" where
  "same_counts a b =
     (processed a = processed b \<and> updated a = updated b \<and> created a = created b
      \<and> r_threats a = r_threats b)"

text \<open>Reports, stored documents and a history used as concrete inputs.\<close>

definition officeNet_wpa2 :: report where
  "officeNet_wpa2 =
     \<lparr>r_ssid = Some ''OfficeNet'', r_bssid = Some ''11:22:33:44:55:66'', r_rssi = - 50,
      r_channel = 6, r_encType = Some ''WPA2''\<rparr>"

definition officeNet_open :: report where
  "officeNet_open =
     \<lparr>r_ssid = Some ''OfficeNet'', r_bssid = Some ''11:22:33:44:55:67'', r_rssi = - 48,
      r_channel = 6, r_encType = Some ''Open''\<rparr>"

definition deceptive_report :: report where
  "deceptive_report =
     \<lparr>r_ssid = Some ''Free WiFi'', r_bssid = Some ''11:22:33:44:55:66'', r_rssi = - 40,
      r_channel = 6, r_encType = Some ''Open''\<rparr>"

definition officeNet_wpa2_record :: network where
  "officeNet_wpa2_record =
     \<lparr>nid = 0, ssid = ''OfficeNet'', bssid = ''11:22:33:44:55:66'', rssi = - 50, channel = 6,
      encType = ''WPA2'', firstSeen = 5, lastSeen = 5, seenCount = 1, status = Unknown,
      history = [\<lparr>h_rssi = - 50, h_timestamp = 5\<rparr>], deviceId = ''ESP8266_001''\<rparr>"

definition officeNet_open_record :: network where
  "officeNet_open_record =
     \<lparr>nid = 1, ssid = ''OfficeNet'', bssid = ''11:22:33:44:55:67'', rssi = - 48, channel = 6,
      encType = ''Open'', firstSeen = 5, lastSeen = 5, seenCount = 1, status = Unknown,
      history = [\<lparr>h_rssi = - 48, h_timestamp = 5\<rparr>], deviceId = ''ESP8266_001''\<rparr>"

definition trusted_record :: network where
  "trusted_record =
     \<lparr>nid = 0, ssid = ''OfficeNet'', bssid = ''11:22:33:44:55:66'', rssi = - 50, channel = 6,
      encType = ''WPA2'', firstSeen = 1, lastSeen = 1, seenCount = 1, status = Trusted,
      history = [\<lparr>h_rssi = - 50, h_timestamp = 1\<rparr>], deviceId = ''ESP8266_001''\<rparr>"

definition jittery_history :: "history_entry list" where
  "jittery_history =
     [\<lparr>h_rssi = - 40, h_timestamp = 1\<rparr>, \<lparr>h_rssi = - 70, h_timestamp = 2\<rparr>,
      \<lparr>h_rssi = - 45, h_timestamp = 3\<rparr>, \<lparr>h_rssi = - 50, h_timestamp = 4\<rparr>,
      \<lparr>h_rssi = - 55, h_timestamp = 5\<rparr>]"

section \<open>The score and the findings of an assessment\<close>

lemma tally_eq: "tally t p acc = (fst acc @ findings_of t, snd acc + points_of t p)"
  by (cases t) (simp_all add: tally_def findings_of_def points_of_def)

lemma assessThreat_threats:
  "threats (assessThreat now n all h) =
     findings_of (checkSuspiciousSSID (ssid n)) @ findings_of (detectEvilTwin n all) @
     findings_of (checkOpenNetwork n) @ findings_of (detectSignalAnomalies n h) @
     findings_of (detectChannelThreats n all) @ findings_of (analyzeMACAddress (bssid n))"
  by (simp add: assessThreat_def Let_def tally_eq)

lemma assessThreat_harmScore:
  "harmScore (assessThreat now n all h) =
     points_of (checkSuspiciousSSID (ssid n)) 30 + points_of (detectEvilTwin n all) 50 +
     points_of (checkOpenNetwork n) 25 + points_of (detectSignalAnomalies n h) 35 +
     points_of (detectChannelThreats n all) 20 + points_of (analyzeMACAddress (bssid n)) 15"
  by (simp add: assessThreat_def Let_def tally_eq)

lemma assessThreat_riskLevel:
  "riskLevel (assessThreat now n all h) =
     (let s = harmScore (assessThreat now n all h) in
      if s \<ge> 70 then critical else if s \<ge> 40 then high else if s \<ge> 20 then medium else low)"
  by (simp add: assessThreat_def Let_def)

lemma assessThreat_isHarmful:
  "isHarmful (assessThreat now n all h) = (harmScore (assessThreat now n all h) \<ge> 40)"
  by (simp add: assessThreat_def Let_def)

lemma length_findings_of: "length (findings_of t) \<le> 1"
  by (simp add: findings_of_def split: option.splits)

lemma points_of_bounds: "0 \<le> p \<Longrightarrow> 0 \<le> points_of t p \<and> points_of t p \<le> p"
  by (simp add: points_of_def split: option.splits)

section \<open>Properties of the detectors\<close>

lemma stronger_than_WEP:
  "strictly_stronger e ''WEP'' \<longleftrightarrow> e = ''WPA'' \<or> e = ''WPA2'' \<or> e = ''WPA3''"
  by (simp add: strictly_stronger_def enc_rank_def)

lemma stronger_than_other:
  "t \<noteq> ''Open'' \<Longrightarrow> t \<noteq> ''WEP'' \<Longrightarrow> \<not> strictly_stronger e t"
  by (auto simp add: strictly_stronger_def enc_rank_def split: option.splits if_splits)

lemma detectEvilTwin_fires:
  "detectEvilTwin t all = None \<longleftrightarrow>
     \<not> ((\<exists>n\<in>set all. sibling t n) \<and>
     (encType t = ''Open'' \<or> (encType t = ''WEP'' \<and>
        (\<exists>n\<in>set all. sibling t n \<and> (encType n = ''WPA'' \<or> encType n = ''WPA2'' \<or> encType n = ''WPA3'')))))"
  by (auto simp add: detectEvilTwin_def Let_def sibling_def list_ex_iff filter_empty_conv)

lemma evil_twin_iff:
  "detectEvilTwin t all = None \<longleftrightarrow>
     \<not> ((\<exists>n\<in>set all. sibling t n) \<and>
     (encType t = ''Open'' \<or> (\<exists>n\<in>set all. sibling t n \<and> strictly_stronger (encType n) (encType t))))"
proof (cases "encType t = ''Open''")
  case True
  then show ?thesis by (simp add: detectEvilTwin_fires)
next
  case notOpen: False
  show ?thesis
  proof (cases "encType t = ''WEP''")
    case True
    then show ?thesis by (simp add: detectEvilTwin_fires stronger_than_WEP)
  next
    case False
    with notOpen show ?thesis by (simp add: detectEvilTwin_fires stronger_than_other)
  qed
qed

lemma evil_twin_finding:
  "detectEvilTwin t all = Some x \<Longrightarrow> ttype x = evil_twin \<and> severity x = high_severity"
  by (auto simp add: detectEvilTwin_def Let_def split: if_splits)

lemma not_suspicious_OfficeNet: "checkSuspiciousSSID ''OfficeNet'' = None"
  by code_simp

lemma mac_112233_66: "analyzeMACAddress ''11:22:33:44:55:66'' = None"
  by code_simp

lemma mac_112233_67: "analyzeMACAddress ''11:22:33:44:55:67'' = None"
  by code_simp

lemma short_history_no_anomaly: "length h < 5 \<Longrightarrow> detectSignalAnomalies n h = None"
  by (simp add: detectSignalAnomalies_def)

lemma few_networks_no_congestion: "length all \<le> 15 \<Longrightarrow> detectChannelThreats n all = None"
proof -
  assume "length all \<le> 15"
  then have "\<not> 15 < length (filter (\<lambda>m. channel m = channel n) all)"
    using length_filter_le [of "\<lambda>m. channel m = channel n" all] by linarith
  then show ?thesis by (simp add: detectChannelThreats_def Let_def)
qed

lemma officeNet_example:
  assumes a: "ssid a = ''OfficeNet''" "bssid a = ''11:22:33:44:55:66''" "encType a = ''WPA2''"
    and b: "ssid b = ''OfficeNet''" "bssid b = ''11:22:33:44:55:67''" "encType b = ''Open''"
    and h: "length ha < 5" "length hb < 5"
  shows "map ttype (threats (assessThreat now b [a, b] hb)) = [evil_twin, open_network]"
    and "harmScore (assessThreat now b [a, b] hb) = 75"
    and "riskLevel (assessThreat now b [a, b] hb) = critical"
    and "harmScore (assessThreat now a [a, b] ha) = 0"
    and "riskLevel (assessThreat now a [a, b] ha) = low"
    and "\<not> isHarmful (assessThreat now a [a, b] ha)"
    and "threats (assessThreat now a [a, b] ha) = []"
proof -
  have "\<not> detectEvilTwin b [a, b] = None"
    unfolding detectEvilTwin_fires using a b by (simp add: sibling_def)
  then obtain x where x: "detectEvilTwin b [a, b] = Some x" by blast
  have ea: "detectEvilTwin a [a, b] = None"
    unfolding detectEvilTwin_fires using a b by simp
  have oa: "checkOpenNetwork a = None"
    using a by (simp add: checkOpenNetwork_def)
  obtain y where y: "checkOpenNetwork b = Some y" "ttype y = open_network"
    using b by (simp add: checkOpenNetwork_def)
  have rest: "checkSuspiciousSSID (ssid a) = None" "checkSuspiciousSSID (ssid b) = None"
    "analyzeMACAddress (bssid a) = None" "analyzeMACAddress (bssid b) = None"
    "detectSignalAnomalies a ha = None" "detectSignalAnomalies b hb = None"
    "detectChannelThreats a [a, b] = None" "detectChannelThreats b [a, b] = None"
    using a b h
    by (simp_all add: not_suspicious_OfficeNet mac_112233_66 mac_112233_67
        short_history_no_anomaly few_networks_no_congestion)
  show "map ttype (threats (assessThreat now b [a, b] hb)) = [evil_twin, open_network]"
    using evil_twin_finding [OF x] x y rest by (simp add: assessThreat_threats findings_of_def)
  show sb: "harmScore (assessThreat now b [a, b] hb) = 75"
    using x y rest by (simp add: assessThreat_harmScore points_of_def)
  show "riskLevel (assessThreat now b [a, b] hb) = critical"
    unfolding assessThreat_riskLevel sb by simp
  show sa: "harmScore (assessThreat now a [a, b] ha) = 0"
    using ea oa rest by (simp add: assessThreat_harmScore points_of_def)
  show "riskLevel (assessThreat now a [a, b] ha) = low"
    unfolding assessThreat_riskLevel sa by simp
  show "\<not> isHarmful (assessThreat now a [a, b] ha)"
    unfolding assessThreat_isHarmful sa by simp
  show "threats (assessThreat now a [a, b] ha) = []"
    using ea oa rest by (simp add: assessThreat_threats findings_of_def)
qed

lemma officeNet_pair:
  "map ttype (threats (assessThreat now officeNet_open_record
     [officeNet_wpa2_record, officeNet_open_record] (history officeNet_open_record)))
     = [evil_twin, open_network]"
  "harmScore (assessThreat now officeNet_open_record
     [officeNet_wpa2_record, officeNet_open_record] (history officeNet_open_record)) = 75"
  "riskLevel (assessThreat now officeNet_open_record
     [officeNet_wpa2_record, officeNet_open_record] (history officeNet_open_record)) = critical"
  "harmScore (assessThreat now officeNet_wpa2_record
     [officeNet_wpa2_record, officeNet_open_record] (history officeNet_wpa2_record)) = 0"
  "threats (assessThreat now officeNet_wpa2_record
     [officeNet_wpa2_record, officeNet_open_record] (history officeNet_wpa2_record)) = []"
proof -
  have a: "ssid officeNet_wpa2_record = ''OfficeNet''"
    "bssid officeNet_wpa2_record = ''11:22:33:44:55:66''" "encType officeNet_wpa2_record = ''WPA2''"
    by (simp_all add: officeNet_wpa2_record_def)
  have b: "ssid officeNet_open_record = ''OfficeNet''"
    "bssid officeNet_open_record = ''11:22:33:44:55:67''" "encType officeNet_open_record = ''Open''"
    by (simp_all add: officeNet_open_record_def)
  have h: "length (history officeNet_wpa2_record) < 5" "length (history officeNet_open_record) < 5"
    by (simp_all add: officeNet_wpa2_record_def officeNet_open_record_def)
  note ex = officeNet_example [OF a b h, of now]
  show "map ttype (threats (assessThreat now officeNet_open_record
     [officeNet_wpa2_record, officeNet_open_record] (history officeNet_open_record)))
     = [evil_twin, open_network]"
    by (rule ex(1))
  show "harmScore (assessThreat now officeNet_open_record
     [officeNet_wpa2_record, officeNet_open_record] (history officeNet_open_record)) = 75"
    by (rule ex(2))
  show "riskLevel (assessThreat now officeNet_open_record
     [officeNet_wpa2_record, officeNet_open_record] (history officeNet_open_record)) = critical"
    by (rule ex(3))
  show "harmScore (assessThreat now officeNet_wpa2_record
     [officeNet_wpa2_record, officeNet_open_record] (history officeNet_wpa2_record)) = 0"
    by (rule ex(4))
  show "threats (assessThreat now officeNet_wpa2_record
     [officeNet_wpa2_record, officeNet_open_record] (history officeNet_wpa2_record)) = []"
    by (rule ex(7))
qed

section \<open>The engine\<close>

text \<open>
  Claim C4. The harm score of an assessment is the sum of the points 30, 50, 25, 35, 20
  and 15 of exactly the detectors that returned a finding, with no ceiling; the risk level
  is critical from 70, high from 40 to 69, medium from 20 to 39 and low below 20; the
  assessment is harmful exactly from 40.
\<close>

theorem harmScore_sum_and_classification:
  "harmScore (assessThreat now n all h) =
     (if checkSuspiciousSSID (ssid n) \<noteq> None then 30 else 0) +
     (if detectEvilTwin n all \<noteq> None then 50 else 0) +
     (if checkOpenNetwork n \<noteq> None then 25 else 0) +
     (if detectSignalAnomalies n h \<noteq> None then 35 else 0) +
     (if detectChannelThreats n all \<noteq> None then 20 else 0) +
     (if analyzeMACAddress (bssid n) \<noteq> None then 15 else 0)
   \<and> (riskLevel (assessThreat now n all h) = critical \<longleftrightarrow> harmScore (assessThreat now n all h) \<ge> 70)
   \<and> (riskLevel (assessThreat now n all h) = high \<longleftrightarrow>
        40 \<le> harmScore (assessThreat now n all h) \<and> harmScore (assessThreat now n all h) < 70)
   \<and> (riskLevel (assessThreat now n all h) = medium \<longleftrightarrow>
        20 \<le> harmScore (assessThreat now n all h) \<and> harmScore (assessThreat now n all h) < 40)
   \<and> (riskLevel (assessThreat now n all h) = low \<longleftrightarrow> harmScore (assessThreat now n all h) < 20)
   \<and> (isHarmful (assessThreat now n all h) \<longleftrightarrow> harmScore (assessThreat now n all h) \<ge> 40)"
proof -
  have pts: "\<And>t p. points_of t p = (if t \<noteq> None then p else 0)"
    by (simp add: points_of_def split: option.splits)
  show ?thesis
    unfolding assessThreat_riskLevel assessThreat_isHarmful
    by (simp add: assessThreat_harmScore pts Let_def)
qed

theorem harmScore_sum_and_classification_witness:
  "harmScore (assessThreat 5 officeNet_open_record
       [officeNet_wpa2_record, officeNet_open_record] (history officeNet_open_record)) = 75
   \<and> riskLevel (assessThreat 5 officeNet_open_record
       [officeNet_wpa2_record, officeNet_open_record] (history officeNet_open_record)) = critical
   \<and> isHarmful (assessThreat 5 officeNet_open_record
       [officeNet_wpa2_record, officeNet_open_record] (history officeNet_open_record))"
proof -
  have "harmScore (assessThreat 5 officeNet_open_record
       [officeNet_wpa2_record, officeNet_open_record] (history officeNet_open_record)) = 75"
    by (rule officeNet_pair)
  then show ?thesis
    using harmScore_sum_and_classification [of 5 officeNet_open_record
        "[officeNet_wpa2_record, officeNet_open_record]" "history officeNet_open_record"]
    by simp
qed

text \<open>
  Claim C10. Every detector contributes at most one finding, so an assessment has at most
  six findings and its harm score lies between 0 and 175.
\<close>

theorem findings_and_score_bounded:
  "length (threats (assessThreat now n all h)) \<le> 6
   \<and> 0 \<le> harmScore (assessThreat now n all h)
   \<and> harmScore (assessThreat now n all h) \<le> 175"
proof -
  have "length (threats (assessThreat now n all h)) \<le> 6"
    unfolding assessThreat_threats length_append
    using length_findings_of [of "checkSuspiciousSSID (ssid n)"]
      length_findings_of [of "detectEvilTwin n all"]
      length_findings_of [of "checkOpenNetwork n"]
      length_findings_of [of "detectSignalAnomalies n h"]
      length_findings_of [of "detectChannelThreats n all"]
      length_findings_of [of "analyzeMACAddress (bssid n)"]
    by linarith
  moreover have "0 \<le> harmScore (assessThreat now n all h)
      \<and> harmScore (assessThreat now n all h) \<le> 175"
    unfolding assessThreat_harmScore
    using points_of_bounds [of 30 "checkSuspiciousSSID (ssid n)"]
      points_of_bounds [of 50 "detectEvilTwin n all"]
      points_of_bounds [of 25 "checkOpenNetwork n"]
      points_of_bounds [of 35 "detectSignalAnomalies n h"]
      points_of_bounds [of 20 "detectChannelThreats n all"]
      points_of_bounds [of 15 "analyzeMACAddress (bssid n)"]
    by linarith
  ultimately show ?thesis by simp
qed

theorem findings_and_score_bounded_witness:
  "length (threats (assessThreat 5 officeNet_open_record
       [officeNet_wpa2_record, officeNet_open_record] (history officeNet_open_record))) \<le> 6
   \<and> 0 \<le> harmScore (assessThreat 5 officeNet_open_record
       [officeNet_wpa2_record, officeNet_open_record] (history officeNet_open_record))
   \<and> harmScore (assessThreat 5 officeNet_open_record
       [officeNet_wpa2_record, officeNet_open_record] (history officeNet_open_record)) \<le> 175"
  by (rule findings_and_score_bounded)

text \<open>
  Claim C3. The evil-twin detector returns a finding (of severity high) exactly when some
  other record of the set has the target's \<^verbatim>\<open>ssid\<close> under a different \<^verbatim>\<open>bssid\<close>, and
  the target is Open or one of these siblings has a strictly stronger encryption than the
  target; it returns none when no other record has the target's \<^verbatim>\<open>ssid\<close>. For the two
  records OfficeNet/WPA2 and OfficeNet/Open, each with fewer than five history entries, the
  Open one is assessed with an evil-twin and an open-network finding, score 75, critical;
  the WPA2 one with score 0, low, not harmful.
\<close>

theorem evil_twin_detector:
  "(detectEvilTwin t all \<noteq> None \<longleftrightarrow>
      (\<exists>n\<in>set all. sibling t n) \<and>
      (encType t = ''Open'' \<or>
       (\<exists>n\<in>set all. sibling t n \<and> strictly_stronger (encType n) (encType t))))
   \<and> (\<forall>x. detectEvilTwin t all = Some x \<longrightarrow> ttype x = evil_twin \<and> severity x = high_severity)
   \<and> ((\<forall>n\<in>set all. bssid n \<noteq> bssid t \<longrightarrow> ssid n \<noteq> ssid t) \<longrightarrow> detectEvilTwin t all = None)
   \<and> (ssid a = ''OfficeNet'' \<and> bssid a = ''11:22:33:44:55:66'' \<and> encType a = ''WPA2'' \<and>
      ssid b = ''OfficeNet'' \<and> bssid b = ''11:22:33:44:55:67'' \<and> encType b = ''Open'' \<and>
      length (history a) < 5 \<and> length (history b) < 5 \<longrightarrow>
        map ttype (threats (assessThreat now b [a, b] (history b))) = [evil_twin, open_network]
        \<and> harmScore (assessThreat now b [a, b] (history b)) = 75
        \<and> riskLevel (assessThreat now b [a, b] (history b)) = critical
        \<and> harmScore (assessThreat now a [a, b] (history a)) = 0
        \<and> riskLevel (assessThreat now a [a, b] (history a)) = low
        \<and> \<not> isHarmful (assessThreat now a [a, b] (history a)))"
proof -
  have 1: "detectEvilTwin t all \<noteq> None \<longleftrightarrow>
      (\<exists>n\<in>set all. sibling t n) \<and>
      (encType t = ''Open'' \<or>
       (\<exists>n\<in>set all. sibling t n \<and> strictly_stronger (encType n) (encType t)))"
    by (simp add: evil_twin_iff del: not_None_eq)
  have 2: "\<forall>x. detectEvilTwin t all = Some x \<longrightarrow> ttype x = evil_twin \<and> severity x = high_severity"
    using evil_twin_finding by blast
  have 3: "(\<forall>n\<in>set all. bssid n \<noteq> bssid t \<longrightarrow> ssid n \<noteq> ssid t) \<longrightarrow> detectEvilTwin t all = None"
    unfolding evil_twin_iff by (auto simp add: sibling_def)
  have 4: "ssid a = ''OfficeNet'' \<and> bssid a = ''11:22:33:44:55:66'' \<and> encType a = ''WPA2'' \<and>
      ssid b = ''OfficeNet'' \<and> bssid b = ''11:22:33:44:55:67'' \<and> encType b = ''Open'' \<and>
      length (history a) < 5 \<and> length (history b) < 5 \<longrightarrow>
        map ttype (threats (assessThreat now b [a, b] (history b))) = [evil_twin, open_network]
        \<and> harmScore (assessThreat now b [a, b] (history b)) = 75
        \<and> riskLevel (assessThreat now b [a, b] (history b)) = critical
        \<and> harmScore (assessThreat now a [a, b] (history a)) = 0
        \<and> riskLevel (assessThreat now a [a, b] (history a)) = low
        \<and> \<not> isHarmful (assessThreat now a [a, b] (history a))"
    using officeNet_example [of a b "history a" "history b" now] by simp
  show ?thesis
    by (rule conjI [OF 1 conjI [OF 2 conjI [OF 3 4]]])
qed

theorem evil_twin_detector_witness:
  "detectEvilTwin officeNet_open_record [officeNet_wpa2_record, officeNet_open_record] \<noteq> None
   \<and> detectEvilTwin officeNet_wpa2_record [officeNet_wpa2_record, officeNet_open_record] = None
   \<and> harmScore (assessThreat 5 officeNet_open_record
       [officeNet_wpa2_record, officeNet_open_record] (history officeNet_open_record)) = 75
   \<and> harmScore (assessThreat 5 officeNet_wpa2_record
       [officeNet_wpa2_record, officeNet_open_record] (history officeNet_wpa2_record)) = 0"
proof -
  have s: "\<not> strictly_stronger ''Open'' ''WPA2''"
    by (simp add: strictly_stronger_def enc_rank_def)
  show ?thesis
    using s
      evil_twin_detector [where t = officeNet_open_record
        and all = "[officeNet_wpa2_record, officeNet_open_record]"
        and a = officeNet_wpa2_record and b = officeNet_open_record and now = 5]
      evil_twin_detector [where t = officeNet_wpa2_record
        and all = "[officeNet_wpa2_record, officeNet_open_record]"
        and a = officeNet_wpa2_record and b = officeNet_open_record and now = 5]
    by (simp add: officeNet_wpa2_record_def officeNet_open_record_def sibling_def
        del: not_None_eq)
qed

text \<open>
  Claim C7. The signal-anomaly detector returns no finding for a history of fewer than five
  entries. Otherwise, when the readings of the last ten entries vary by more than 20 dBm it
  returns the variation finding, whatever the observation counter is; when they do not and
  the counter exceeds 100 it returns the high-frequency finding; else none. It returns at most
  one finding, which adds 35 points to the harm score.
\<close>

theorem signal_anomaly_cases:
  "(length h < 5 \<longrightarrow> detectSignalAnomalies n h = None)
   \<and> (5 \<le> length h \<longrightarrow>
        (let recent = map h_rssi (drop (length h - 10) h);
             variation = Max (set recent) - Min (set recent)
         in (variation > 20 \<longrightarrow>
               map_option ttype (detectSignalAnomalies n h) = Some signal_anomaly)
            \<and> (variation \<le> 20 \<and> seenCount n > 100 \<longrightarrow>
               map_option ttype (detectSignalAnomalies n h) = Some high_frequency)
            \<and> (variation \<le> 20 \<and> seenCount n \<le> 100 \<longrightarrow> detectSignalAnomalies n h = None)))
   \<and> length (findings_of (detectSignalAnomalies n h)) \<le> 1
   \<and> harmScore (assessThreat now n all h) - harmScore (assessThreat now n all []) =
       (if detectSignalAnomalies n h \<noteq> None then 35 else 0)"
proof -
  have 1: "length h < 5 \<longrightarrow> detectSignalAnomalies n h = None"
    by (simp add: short_history_no_anomaly)
  have 2: "5 \<le> length h \<longrightarrow>
        (let recent = map h_rssi (drop (length h - 10) h);
             variation = Max (set recent) - Min (set recent)
         in (variation > 20 \<longrightarrow>
               map_option ttype (detectSignalAnomalies n h) = Some signal_anomaly)
            \<and> (variation \<le> 20 \<and> seenCount n > 100 \<longrightarrow>
               map_option ttype (detectSignalAnomalies n h) = Some high_frequency)
            \<and> (variation \<le> 20 \<and> seenCount n \<le> 100 \<longrightarrow> detectSignalAnomalies n h = None))"
    by (simp add: detectSignalAnomalies_def Let_def slice_last_def rapidSignalChanges_def
        highSeenCount_def)
  have 3: "length (findings_of (detectSignalAnomalies n h)) \<le> 1"
    by (rule length_findings_of)
  have 4: "harmScore (assessThreat now n all h) - harmScore (assessThreat now n all []) =
       (if detectSignalAnomalies n h \<noteq> None then 35 else 0)"
    by (simp add: assessThreat_harmScore short_history_no_anomaly points_of_def
        split: option.splits)
  show ?thesis
    by (rule conjI [OF 1 conjI [OF 2 conjI [OF 3 4]]])
qed

theorem signal_anomaly_cases_witness:
  "5 \<le> length jittery_history
   \<and> 100 < seenCount (officeNet_wpa2_record\<lparr>seenCount := 200\<rparr>)
   \<and> map_option ttype
       (detectSignalAnomalies (officeNet_wpa2_record\<lparr>seenCount := 200\<rparr>) jittery_history)
       = Some signal_anomaly
   \<and> detectSignalAnomalies (officeNet_wpa2_record\<lparr>seenCount := 200\<rparr>) (take 4 jittery_history)
       = None"
  using signal_anomaly_cases [of jittery_history "officeNet_wpa2_record\<lparr>seenCount := 200\<rparr>"]
    signal_anomaly_cases [of "take 4 jittery_history" "officeNet_wpa2_record\<lparr>seenCount := 200\<rparr>"]
  by (simp add: jittery_history_def Let_def)

section \<open>Properties of the store\<close>

lemma fresh_gt: "n \<in> set st \<Longrightarrow> nid n < fresh st"
  by (induction st) auto

lemma fresh_notin: "fresh st \<notin> nid ` set st"
  using fresh_gt by fastforce

lemma status_of_member:
  "distinct (map nid st) \<Longrightarrow> m \<in> set st \<Longrightarrow> status_of (nid m) st = Some (status m)"
  by (induction st) (auto simp add: status_of_def)

lemma status_of_append:
  "status_of i (st @ [d]) =
     (case status_of i st of Some v \<Rightarrow> Some v
      | None \<Rightarrow> if nid d = i then Some (status d) else None)"
  by (induction st) (auto simp add: status_of_def)

lemma nid_update_first:
  "(\<And>n. nid (f n) = nid n) \<Longrightarrow> map nid (update_first P f st) = map nid st"
  by (induction st) auto

lemma status_of_update_first:
  "(\<And>n. nid (f n) = nid n) \<Longrightarrow> (\<And>n. status (f n) = status n) \<Longrightarrow>
     status_of i (update_first P f st) = status_of i st"
  by (induction st) (auto simp add: status_of_def)

lemma find_update_first:
  "find P st = Some n \<Longrightarrow> f n \<in> set (update_first P f st)"
  by (induction st) (auto split: if_splits)

lemma find_update_first_same:
  "(\<And>n. P (f n) = P n) \<Longrightarrow> find P (update_first P f st) = map_option f (find P st)"
  by (induction st) auto

lemma find_snoc:
  "find P (xs @ [y]) = (case find P xs of None \<Rightarrow> (if P y then Some y else None) | Some x \<Rightarrow> Some x)"
  by (induction xs) auto

lemma apply_update_keeps [simp]:
  "nid (apply_update u n) = nid n" "status (apply_update u n) = status n"
  "bssid (apply_update u n) = bssid n" "firstSeen (apply_update u n) = firstSeen n"
  by (simp_all add: apply_update_def)

lemma findOneAndUpdate_ids:
  "distinct (map nid st) \<Longrightarrow> distinct (map nid (snd (findOneAndUpdate now key u st)))"
  by (auto simp add: findOneAndUpdate_def Let_def nid_update_first new_document_def fresh_notin
      split: option.splits)

lemma findOneAndUpdate_member:
  "fst (findOneAndUpdate now key u st) \<in> set (snd (findOneAndUpdate now key u st))"
  by (auto simp add: findOneAndUpdate_def Let_def find_update_first split: option.splits)

lemma findOneAndUpdate_status_of:
  "status_of i st = Some v \<Longrightarrow> status_of i (snd (findOneAndUpdate now key u st)) = Some v"
  by (auto simp add: findOneAndUpdate_def Let_def status_of_update_first status_of_append
      split: option.splits)

lemma findByIdAndUpdate_status_of:
  "status_of j (snd (findByIdAndUpdate i s st)) =
     (if j = i \<and> status_of i st \<noteq> None then Some s else status_of j st)"
proof -
  have "map_option status (find (\<lambda>n. nid n = j) (update_first (\<lambda>n. nid n = i) (\<lambda>n. n\<lparr>status := s\<rparr>) st))
      = (if j = i \<and> find (\<lambda>n. nid n = i) st \<noteq> None then Some s
         else map_option status (find (\<lambda>n. nid n = j) st))"
    by (induction st) auto
  then show ?thesis
    by (auto simp add: findByIdAndUpdate_def status_of_def split: option.splits)
qed

lemma findByIdAndUpdate_ids:
  "map nid (snd (findByIdAndUpdate i s st)) = map nid st"
  by (auto simp add: findByIdAndUpdate_def nid_update_first split: option.splits)

lemma upsert_ids: "distinct (map nid st) \<Longrightarrow> distinct (map nid (snd (upsert now dev r st)))"
  by (simp add: upsert_def Let_def findOneAndUpdate_ids)

lemma upsert_member: "fst (upsert now dev r st) \<in> set (snd (upsert now dev r st))"
  by (simp add: upsert_def Let_def findOneAndUpdate_member)

lemma upsert_status_of:
  "status_of i st = Some v \<Longrightarrow> status_of i (snd (upsert now dev r st)) = Some v"
  by (simp add: upsert_def Let_def findOneAndUpdate_status_of)

section \<open>One report, and the loop over a batch\<close>

lemma processReport_store:
  "\<not> falsy (r_bssid r) \<Longrightarrow>
   fst (processReport now dev all r (st, res)) =
     (let network = fst (upsert now dev r st);
          st1 = snd (upsert now dev r st)
      in if isHarmful (assessThreat now network all (history network)) \<and> status network = Unknown
         then snd (findByIdAndUpdate (nid network) Suspicious st1) else st1)"
  by (simp add: processReport_def Let_def)

lemma processReport_threats:
  "\<not> falsy (r_bssid r) \<Longrightarrow>
   r_threats (snd (processReport now dev all r (st, res))) =
     (let network = fst (upsert now dev r st);
          a = assessThreat now network all (history network)
      in r_threats res @ (if threats a \<noteq> [] then [threat_item_of network a] else []))"
  by (simp add: processReport_def Let_def)

lemma processReport_ids:
  "distinct (map nid st) \<Longrightarrow> distinct (map nid (fst (processReport now dev all r (st, res))))"
  by (cases "falsy (r_bssid r)")
    (simp_all add: processReport_def Let_def findByIdAndUpdate_ids upsert_ids)

lemma processReport_status_of:
  assumes d: "distinct (map nid st)" and b: "\<not> falsy (r_bssid r)"
  shows "status_of j (fst (processReport now dev all r (st, res))) =
     (let network = fst (upsert now dev r st)
      in if j = nid network \<and> isHarmful (assessThreat now network all (history network))
            \<and> status network = Unknown
         then Some Suspicious else status_of j (snd (upsert now dev r st)))"
proof -
  let ?network = "fst (upsert now dev r st)"
  let ?st1 = "snd (upsert now dev r st)"
  have "status_of (nid ?network) ?st1 = Some (status ?network)"
    using status_of_member [OF upsert_ids [OF d] upsert_member] .
  then show ?thesis
    by (simp add: processReport_store [OF b] Let_def findByIdAndUpdate_status_of)
qed

lemma processReport_keeps_settled:
  assumes d: "distinct (map nid st)" and s: "status_of i st = Some v" and v: "v \<noteq> Unknown"
  shows "status_of i (fst (processReport now dev all r (st, res))) = Some v"
proof (cases "falsy (r_bssid r)")
  case True
  then show ?thesis using s by (simp add: processReport_def Let_def)
next
  case False
  let ?network = "fst (upsert now dev r st)"
  let ?st1 = "snd (upsert now dev r st)"
  have 1: "status_of i ?st1 = Some v" using s by (rule upsert_status_of)
  have 2: "status_of (nid ?network) ?st1 = Some (status ?network)"
    using status_of_member [OF upsert_ids [OF d] upsert_member] .
  have "i = nid ?network \<Longrightarrow> status ?network \<noteq> Unknown"
    using 1 2 v by auto
  then show ?thesis
    using 1 by (auto simp add: processReport_status_of [OF d False] Let_def)
qed

lemma scan_loop_append:
  "scan_loop now dev all (xs @ ys) s = scan_loop now dev all ys (scan_loop now dev all xs s)"
  by (induction xs arbitrary: s) simp_all

lemma scan_loop_ids:
  "distinct (map nid (fst s)) \<Longrightarrow> distinct (map nid (fst (scan_loop now dev all rs s)))"
proof (induction rs arbitrary: s)
  case Nil
  then show ?case by simp
next
  case (Cons r rs)
  obtain st res where s: "s = (st, res)" by (cases s)
  show ?case using Cons.prems
    by (simp add: s Cons.IH processReport_ids)
qed

lemma scan_loop_keeps_settled:
  "distinct (map nid (fst s)) \<Longrightarrow> status_of i (fst s) = Some v \<Longrightarrow> v \<noteq> Unknown \<Longrightarrow>
     status_of i (fst (scan_loop now dev all rs s)) = Some v"
proof (induction rs arbitrary: s)
  case Nil
  then show ?case by simp
next
  case (Cons r rs)
  obtain st res where s: "s = (st, res)" by (cases s)
  have "distinct (map nid (fst (processReport now dev all r (st, res))))"
    using Cons.prems(1) by (simp add: s processReport_ids)
  moreover have "status_of i (fst (processReport now dev all r (st, res))) = Some v"
    using Cons.prems by (simp add: s processReport_keeps_settled)
  ultimately show ?case
    using Cons.IH [of "processReport now dev all r (st, res)"] Cons.prems(3) by (simp add: s)
qed

text \<open>
  The loop of the handler in terms of the loop over reports: it processes the reports
  that stand before the first \<^verbatim>\<open>null\<close> item, and that item, if there is one, ends
  it with an exception.
\<close>

lemma processItem_object:
  "processItem now dev all (Some r) s = Inr (processReport now dev all r s)"
  by (simp add: processItem_def tryBlock_def)

lemma processItem_null:
  "processItem now dev all None s =
     Inl (TypeError ''Cannot read properties of null (reading 'bssid')'')"
  by (simp add: processItem_def tryBlock_def catchBlock_def)

lemma scan_items_eq:
  "scan_items now dev all items s =
     (fst (scan_loop now dev all (reports_before_null items) s),
      if None \<in> set items
      then Inl (TypeError ''Cannot read properties of null (reading 'bssid')'')
      else Inr (snd (scan_loop now dev all (reports_before_null items) s)))"
proof (induction items arbitrary: s)
  case Nil
  then show ?case by simp
next
  case (Cons item items)
  show ?case
  proof (cases item)
    case None
    then show ?thesis by (simp add: processItem_null)
  next
    case (Some r)
    then show ?thesis by (simp add: processItem_object Cons.IH)
  qed
qed

lemma reports_before_null_objects: "reports_before_null (map Some rs) = rs"
  by (induction rs) simp_all

lemma scan_store:
  "snd (scan now device (Some items) st) =
     fst (scan_loop now (case device of None \<Rightarrow> ''ESP8266_001'' | Some d \<Rightarrow> d) st
       (reports_before_null items) (st, initial_results))"
  by (simp add: scan_def Let_def scan_items_eq)

text \<open>The two OfficeNet reports, ingested one after the other into an empty store.\<close>

lemma upsert_wpa2:
  "upsert 5 ''ESP8266_001'' officeNet_wpa2 [] = (officeNet_wpa2_record, [officeNet_wpa2_record])"
  by code_simp

lemma upsert_open:
  "upsert 5 ''ESP8266_001'' officeNet_open [officeNet_wpa2_record] =
     (officeNet_open_record, [officeNet_wpa2_record, officeNet_open_record])"
  by code_simp

lemma alone_wpa2:
  "threats (assessThreat 5 officeNet_wpa2_record [] (history officeNet_wpa2_record)) = []"
  "harmScore (assessThreat 5 officeNet_wpa2_record [] (history officeNet_wpa2_record)) = 0"
  by code_simp+

lemma alone_open:
  "map ttype (threats (assessThreat 5 officeNet_open_record [] (history officeNet_open_record)))
     = [open_network]"
  "harmScore (assessThreat 5 officeNet_open_record [] (history officeNet_open_record)) = 25"
  by code_simp+

lemma step_wpa2:
  "processReport 5 ''ESP8266_001'' [] officeNet_wpa2 ([], initial_results) =
     ([officeNet_wpa2_record], initial_results\<lparr>created := 1, processed := 1\<rparr>)"
proof -
  have "\<not> falsy (r_bssid officeNet_wpa2)" by (simp add: falsy_def officeNet_wpa2_def)
  moreover have "seenCount officeNet_wpa2_record = 1" by (simp add: officeNet_wpa2_record_def)
  ultimately show ?thesis
    by (simp add: processReport_def Let_def upsert_wpa2 alone_wpa2 assessThreat_isHarmful
        initial_results_def)
qed

lemma step_open:
  "fst (processReport 5 ''ESP8266_001'' [] officeNet_open ([officeNet_wpa2_record], res)) =
     [officeNet_wpa2_record, officeNet_open_record]"
  "r_threats (snd (processReport 5 ''ESP8266_001'' [] officeNet_open ([officeNet_wpa2_record], res)))
     = r_threats res @ [threat_item_of officeNet_open_record
         (assessThreat 5 officeNet_open_record [] (history officeNet_open_record))]"
proof -
  have f: "\<not> falsy (r_bssid officeNet_open)" by (simp add: falsy_def officeNet_open_def)
  have t: "threats (assessThreat 5 officeNet_open_record [] (history officeNet_open_record)) \<noteq> []"
    using alone_open(1) by auto
  show "fst (processReport 5 ''ESP8266_001'' [] officeNet_open ([officeNet_wpa2_record], res)) =
     [officeNet_wpa2_record, officeNet_open_record]"
    by (simp add: processReport_store [OF f] Let_def upsert_open assessThreat_isHarmful alone_open)
  show "r_threats (snd (processReport 5 ''ESP8266_001'' [] officeNet_open ([officeNet_wpa2_record], res)))
     = r_threats res @ [threat_item_of officeNet_open_record
         (assessThreat 5 officeNet_open_record [] (history officeNet_open_record))]"
    using t by (simp add: processReport_threats [OF f] Let_def upsert_open)
qed

lemma deceptive_is_harmful:
  "isHarmful (assessThreat 5 (fst (upsert 5 ''ESP8266_001'' deceptive_report [trusted_record]))
     [trusted_record] (history (fst (upsert 5 ''ESP8266_001'' deceptive_report [trusted_record]))))"
  by code_simp

lemma trusted_record_fields:
  "nid trusted_record = 0" "status trusted_record = Trusted"
  "status_of 0 [trusted_record] = Some Trusted"
  by (simp_all add: trusted_record_def status_of_def)

text \<open>
  Claim C5. While a report is processed, the status of its record is set to suspicious
  exactly when the assessment is harmful and the record's status is unknown, and this is
  written before the next report is looked at; no other stored status changes, so a trusted
  or suspicious record keeps its status whatever the assessment says. The identifiers of
  the stored documents are distinct, as they are in the empty store and after every
  operation on it.
\<close>

theorem automatic_transition:
  assumes d: "distinct (map nid st)" and b: "\<not> falsy (r_bssid r)"
  shows "let network = fst (upsert now dev r st);
             a = assessThreat now network all (history network);
             st2 = fst (processReport now dev all r (st, res))
         in status_of (nid network) st2 =
              Some (if isHarmful a \<and> status network = Unknown then Suspicious else status network)
          \<and> (\<forall>m\<in>set st. status m \<noteq> Unknown \<longrightarrow> status_of (nid m) st2 = Some (status m))
          \<and> (\<forall>m\<in>set st. status_of (nid m) st2 \<noteq> Some (status m) \<longrightarrow>
                nid m = nid network \<and> status m = Unknown \<and> isHarmful a
                \<and> status_of (nid m) st2 = Some Suspicious)"
proof -
  let ?network = "fst (upsert now dev r st)"
  let ?st1 = "snd (upsert now dev r st)"
  let ?a = "assessThreat now ?network all (history ?network)"
  let ?st2 = "fst (processReport now dev all r (st, res))"
  have own: "status_of (nid ?network) ?st1 = Some (status ?network)"
    using status_of_member [OF upsert_ids [OF d] upsert_member] .
  have old: "status_of (nid m) ?st1 = Some (status m)" if "m \<in> set st" for m
    using upsert_status_of [OF status_of_member [OF d that]] .
  have 1: "status_of (nid ?network) ?st2 =
      Some (if isHarmful ?a \<and> status ?network = Unknown then Suspicious else status ?network)"
    using own by (simp add: processReport_status_of [OF d b] Let_def)
  have 2: "status_of (nid m) ?st2 = Some (status m)" if "m \<in> set st" "status m \<noteq> Unknown" for m
    using processReport_keeps_settled [OF d status_of_member [OF d that(1)] that(2)] .
  have 3: "nid m = nid ?network \<and> status m = Unknown \<and> isHarmful ?a
      \<and> status_of (nid m) ?st2 = Some Suspicious"
    if "m \<in> set st" "status_of (nid m) ?st2 \<noteq> Some (status m)" for m
    using that(2) old [OF that(1)] own
    by (auto simp add: processReport_status_of [OF d b] Let_def split: if_splits)
  show ?thesis
    unfolding Let_def using 1 2 3 by blast
qed

theorem automatic_transition_witness:
  "distinct (map nid [trusted_record]) \<and> \<not> falsy (r_bssid deceptive_report)
   \<and> isHarmful (assessThreat 5 (fst (upsert 5 ''ESP8266_001'' deceptive_report [trusted_record]))
       [trusted_record] (history (fst (upsert 5 ''ESP8266_001'' deceptive_report [trusted_record]))))
   \<and> status_of 0 (fst (processReport 5 ''ESP8266_001'' [trusted_record] deceptive_report
       ([trusted_record], initial_results))) = Some Trusted"
proof -
  have d: "distinct (map nid [trusted_record])" by simp
  have f: "\<not> falsy (r_bssid deceptive_report)" by (simp add: falsy_def deceptive_report_def)
  show ?thesis
    using automatic_transition [OF d f, of 5 "''ESP8266_001''" "[trusted_record]" initial_results]
      d f deceptive_is_harmful
    by (simp add: Let_def trusted_record_fields)
qed

text \<open>
  Claim C6, as the code has it. The manual patch stores whichever of trusted, unknown and
  suspicious it is given, so it can return a record to unknown.
\<close>

theorem patch_returns_to_unknown:
  "status_of 0 [trusted_record] = Some Trusted
   \<and> status_of 0 (snd (patchStatus 0 ''unknown'' [trusted_record])) = Some Unknown"
  by (simp add: status_of_def patchStatus_def parse_status_def findByIdAndUpdate_def
      trusted_record_def)

text \<open>
  Claim C6, amended. No batch of the intake pipeline changes a status that is trusted or
  suspicious, so the pipeline never returns a record to unknown; the manual patch sets the
  status of an existing record to the requested one of trusted, unknown and suspicious.
\<close>

theorem status_left_only_by_patch:
  "(distinct (map nid st) \<and> status_of i st = Some v \<and> v \<noteq> Unknown \<longrightarrow>
      status_of i (snd (scan now device networks st)) = Some v)
   \<and> (parse_status s = Some w \<and> status_of i st \<noteq> None \<longrightarrow>
      status_of i (snd (patchStatus i s st)) = Some w)
   \<and> parse_status ''unknown'' = Some Unknown"
proof -
  have "status_of i (snd (scan now device networks st)) = Some v"
    if "distinct (map nid st)" "status_of i st = Some v" "v \<noteq> Unknown"
  proof (cases networks)
    case None
    then show ?thesis using that by (simp add: scan_def)
  next
    case (Some items)
    then show ?thesis
      using scan_loop_keeps_settled [of "(st, initial_results)" i v now _ st
          "reports_before_null items"] that
      by (simp add: scan_store)
  qed
  moreover have "status_of i (snd (patchStatus i s st)) = Some w"
    if "parse_status s = Some w" "status_of i st \<noteq> None"
    using that findByIdAndUpdate_status_of [of i i w st]
    by (auto simp add: patchStatus_def split: prod.splits option.splits)
  ultimately show ?thesis by (simp add: parse_status_def)
qed

theorem status_left_only_by_patch_witness:
  "distinct (map nid [trusted_record]) \<and> status_of 0 [trusted_record] = Some Trusted
   \<and> status_of 0 (snd (scan 5 None (Some [Some deceptive_report]) [trusted_record])) = Some Trusted
   \<and> parse_status ''suspicious'' = Some Suspicious
   \<and> status_of 0 (snd (patchStatus 0 ''suspicious'' [trusted_record])) = Some Suspicious"
proof -
  have p: "parse_status ''suspicious'' = Some Suspicious" by (simp add: parse_status_def)
  show ?thesis
    using p status_left_only_by_patch [where st = "[trusted_record]" and i = 0 and v = Trusted
        and now = 5 and device = None and networks = "Some [Some deceptive_report]"
        and s = "''suspicious''" and w = Suspicious]
    by (simp add: trusted_record_fields)
qed

lemma processReport_errors_irrelevant:
  assumes "same_counts res res'" "set (errors res) \<subseteq> set (errors res')"
  shows "fst (processReport now dev all r (st, res)) = fst (processReport now dev all r (st, res'))"
    and "same_counts (snd (processReport now dev all r (st, res)))
           (snd (processReport now dev all r (st, res')))"
    and "set (errors (snd (processReport now dev all r (st, res))))
           \<subseteq> set (errors (snd (processReport now dev all r (st, res'))))"
  using assms by (auto simp add: processReport_def Let_def same_counts_def)

lemma scan_loop_errors_irrelevant:
  "fst s = fst s' \<Longrightarrow> same_counts (snd s) (snd s') \<Longrightarrow> set (errors (snd s)) \<subseteq> set (errors (snd s')) \<Longrightarrow>
     fst (scan_loop now dev all rs s) = fst (scan_loop now dev all rs s')
     \<and> same_counts (snd (scan_loop now dev all rs s)) (snd (scan_loop now dev all rs s'))
     \<and> set (errors (snd (scan_loop now dev all rs s))) \<subseteq> set (errors (snd (scan_loop now dev all rs s')))"
proof (induction rs arbitrary: s s')
  case Nil
  then show ?case by simp
next
  case (Cons r rs)
  obtain st res res' where s: "s = (st, res)" "s' = (st, res')"
    using Cons.prems(1) by (cases s, cases s') auto
  show ?case
    using Cons.prems processReport_errors_irrelevant [of res res' now dev all r st]
    by (simp add: s Cons.IH)
qed

lemma processReport_errors_mono:
  "set (errors res) \<subseteq> set (errors (snd (processReport now dev all r (st, res))))"
  by (auto simp add: processReport_def Let_def)

lemma scan_loop_errors_mono:
  "set (errors (snd s)) \<subseteq> set (errors (snd (scan_loop now dev all rs s)))"
proof (induction rs arbitrary: s)
  case Nil
  then show ?case by simp
next
  case (Cons r rs)
  obtain st res where s: "s = (st, res)" by (cases s)
  show ?case
    using processReport_errors_mono [of res now dev all r st]
      Cons.IH [of "processReport now dev all r (st, res)"]
    by (auto simp add: s)
qed

text \<open>
  A report that is an object without \<^verbatim>\<open>bssid\<close> adds one message naming its
  \<^verbatim>\<open>ssid\<close> to the error list and changes nothing else; the loop goes on with the
  remaining reports, and the store and the counters after them are those of the batch
  without that report.
\<close>

lemma missing_bssid_skipped:
  assumes "falsy (r_bssid r)"
  shows "processReport now dev all r (st, res) =
           (st, res\<lparr>errors := errors res @
                  [''Missing BSSID for network: '' @ template_str (r_ssid r)]\<rparr>)
    \<and> fst (scan_loop now dev all (xs @ r # ys) s) = fst (scan_loop now dev all (xs @ ys) s)
    \<and> same_counts (snd (scan_loop now dev all (xs @ ys) s))
           (snd (scan_loop now dev all (xs @ r # ys) s))
    \<and> (''Missing BSSID for network: '' @ template_str (r_ssid r))
           \<in> set (errors (snd (scan_loop now dev all (xs @ r # ys) s)))"
proof -
  let ?msg = "''Missing BSSID for network: '' @ template_str (r_ssid r)"
  have step: "processReport now dev all r (st, res) = (st, res\<lparr>errors := errors res @ [?msg]\<rparr>)"
    for st res
    using assms by (simp add: processReport_def Let_def)
  obtain st1 res1 where s1: "scan_loop now dev all xs s = (st1, res1)"
    by (cases "scan_loop now dev all xs s")
  let ?with = "(st1, res1\<lparr>errors := errors res1 @ [?msg]\<rparr>)"
  have w: "scan_loop now dev all (xs @ r # ys) s = scan_loop now dev all ys ?with"
    by (simp add: scan_loop_append s1 step)
  have wo: "scan_loop now dev all (xs @ ys) s = scan_loop now dev all ys (st1, res1)"
    by (simp add: scan_loop_append s1)
  have rel: "fst (scan_loop now dev all ys (st1, res1)) = fst (scan_loop now dev all ys ?with)
     \<and> same_counts (snd (scan_loop now dev all ys (st1, res1))) (snd (scan_loop now dev all ys ?with))
     \<and> set (errors (snd (scan_loop now dev all ys (st1, res1))))
         \<subseteq> set (errors (snd (scan_loop now dev all ys ?with)))"
    by (rule scan_loop_errors_irrelevant) (auto simp add: same_counts_def)
  have "?msg \<in> set (errors (snd (scan_loop now dev all ys ?with)))"
    using scan_loop_errors_mono [of ?with now dev all ys] by auto
  then show ?thesis
    using rel step by (simp add: w wo)
qed

text \<open>
  Claim C9. A malformed report must not abort the batch. The loop body catches what an
  item throws, but its handler reads \<^verbatim>\<open>networkData.bssid\<close>, which throws again when the
  item is \<^verbatim>\<open>null\<close>: the request is answered 500, the report before the \<^verbatim>\<open>null\<close>
  item stays stored and the report after it is never processed.
\<close>

theorem null_item_aborts_batch:
  "scan 5 None (Some [Some officeNet_wpa2, None, Some officeNet_open]) [] =
     (Inl (InternalServerError ''Internal server error''
        ''Cannot read properties of null (reading 'bssid')''),
      [officeNet_wpa2_record])
   \<and> snd (scan 5 None (Some [Some officeNet_wpa2, Some officeNet_open]) []) =
       [officeNet_wpa2_record, officeNet_open_record]"
  by (simp add: scan_def Let_def scan_items_eq step_wpa2 step_open)

text \<open>
  Claim C2, as the code has it. The record set passed to the engine is read once, before the
  first report of the request. Two OfficeNet reports sent to an empty store leave both
  records stored, and against these two the Open one scores 75; the pipeline assessed it
  against the empty set and reports 25.
\<close>

theorem assessment_misses_batch_sibling:
  "snd (scan 5 None (Some [Some officeNet_wpa2, Some officeNet_open]) []) =
     [officeNet_wpa2_record, officeNet_open_record]
   \<and> map_sum id (map ti_harmScore \<circ> r_threats \<circ> sr_results)
       (fst (scan 5 None (Some [Some officeNet_wpa2, Some officeNet_open]) [])) = Inr [25]
   \<and> harmScore (assessThreat 5 officeNet_open_record
        [officeNet_wpa2_record, officeNet_open_record] (history officeNet_open_record)) = 75"
proof -
  have "harmScore (assessThreat 5 officeNet_open_record
        [officeNet_wpa2_record, officeNet_open_record] (history officeNet_open_record)) = 75"
    by (rule officeNet_pair)
  moreover have "r_threats (initial_results\<lparr>created := 1, processed := 1\<rparr>) = []"
    by (simp add: initial_results_def)
  ultimately show ?thesis
    by (simp add: scan_def Let_def scan_items_eq step_wpa2 step_open threat_item_of_def
        alone_open)
qed

text \<open>
  Claim C2, amended. For every report of a batch, the pipeline assesses the record as the
  report's own upsert has just left it, passing that record's history, against the record
  set as it was stored when the request began: neither this update nor those of earlier
  reports of the batch are in that set.
\<close>

theorem assessment_uses_request_snapshot:
  "(\<not> falsy (r_bssid r) \<longrightarrow>
     (let s = scan_loop now dev start rs (start, initial_results);
          network = fst (upsert now dev r (fst s));
          st1 = snd (upsert now dev r (fst s));
          a = assessThreat now network start (history network)
      in r_threats (snd (scan_loop now dev start (rs @ [r]) (start, initial_results))) =
           r_threats (snd s) @ (if threats a \<noteq> [] then [threat_item_of network a] else [])
         \<and> fst (scan_loop now dev start (rs @ [r]) (start, initial_results)) =
           (if isHarmful a \<and> status network = Unknown
            then snd (findByIdAndUpdate (nid network) Suspicious st1) else st1)))
   \<and> snd (scan now device (Some items) start) =
       fst (scan_loop now (case device of None \<Rightarrow> ''ESP8266_001'' | Some d \<Rightarrow> d) start
         (reports_before_null items) (start, initial_results))"
proof -
  obtain st res where s: "scan_loop now dev start rs (start, initial_results) = (st, res)"
    by (cases "scan_loop now dev start rs (start, initial_results)")
  have "snd (scan now device (Some items) start) =
       fst (scan_loop now (case device of None \<Rightarrow> ''ESP8266_001'' | Some d \<Rightarrow> d) start
         (reports_before_null items) (start, initial_results))"
    by (rule scan_store)
  then show ?thesis
    by (simp add: scan_loop_append s processReport_threats processReport_store Let_def)
qed

theorem assessment_uses_request_snapshot_witness:
  "\<not> falsy (r_bssid officeNet_open)
   \<and> r_threats (snd (scan_loop 5 ''ESP8266_001'' [] ([officeNet_wpa2] @ [officeNet_open])
       ([], initial_results)))
     = [threat_item_of officeNet_open_record
         (assessThreat 5 officeNet_open_record [] (history officeNet_open_record))]"
proof -
  have f: "\<not> falsy (r_bssid officeNet_open)" by (simp add: falsy_def officeNet_open_def)
  have t: "threats (assessThreat 5 officeNet_open_record [] (history officeNet_open_record)) \<noteq> []"
    using alone_open(1) by auto
  have e: "r_threats (initial_results\<lparr>created := 1, processed := 1\<rparr>) = []"
    by (simp add: initial_results_def)
  show ?thesis
    using f t e assessment_uses_request_snapshot [where r = officeNet_open and now = 5
        and dev = "''ESP8266_001''" and start = "[]" and rs = "[officeNet_wpa2]"]
    by (simp add: Let_def step_wpa2 upsert_open)
qed

section \<open>The growth of the history\<close>

lemma findOneAndUpdate_history_len:
  "history_len key (snd (findOneAndUpdate now key u st)) =
     length (push (push_history u) (case find (\<lambda>n. bssid n = key) st of None \<Rightarrow> [] | Some n \<Rightarrow> history n))"
  by (auto simp add: findOneAndUpdate_def history_len_def Let_def find_update_first_same
      find_snoc new_document_def apply_update_def split: option.splits)

lemma findOneAndUpdate_seen_count:
  "seen_count key (snd (findOneAndUpdate now key u st)) = seen_count key st + inc_seenCount u"
  by (auto simp add: findOneAndUpdate_def seen_count_def Let_def find_update_first_same
      find_snoc new_document_def apply_update_def split: option.splits)

lemma history_len_status_update:
  "history_len key (update_first Q (\<lambda>n. n\<lparr>status := s\<rparr>) st) = history_len key st"
  by (induction st) (auto simp add: history_len_def)

lemma seen_count_status_update:
  "seen_count key (update_first Q (\<lambda>n. n\<lparr>status := s\<rparr>) st) = seen_count key st"
  by (induction st) (auto simp add: seen_count_def)

lemma history_len_findById:
  "history_len key (snd (findByIdAndUpdate i s st)) = history_len key st"
  by (simp add: findByIdAndUpdate_def history_len_status_update split: option.splits)

lemma seen_count_findById:
  "seen_count key (snd (findByIdAndUpdate i s st)) = seen_count key st"
  by (simp add: findByIdAndUpdate_def seen_count_status_update split: option.splits)

lemma processReport_observation:
  assumes "r_bssid r = Some b" "b \<noteq> []"
  shows "history_len (toUpperCase b) (fst (processReport now dev all r (st, res))) =
           history_len (toUpperCase b) st + 1
       \<and> seen_count (toUpperCase b) (fst (processReport now dev all r (st, res))) =
           seen_count (toUpperCase b) st + 1"
proof -
  have f: "\<not> falsy (r_bssid r)" using assms by (simp add: falsy_def)
  have k: "toUpperCase (or_default (r_bssid r) []) = toUpperCase b"
    using assms by (simp add: or_default_def)
  have "length (case find (\<lambda>n. bssid n = toUpperCase b) st of None \<Rightarrow> [] | Some n \<Rightarrow> history n)
      = history_len (toUpperCase b) st"
    by (simp add: history_len_def split: option.splits)
  then have "history_len (toUpperCase b) (snd (upsert now dev r st)) = history_len (toUpperCase b) st + 1"
    by (simp add: upsert_def Let_def k findOneAndUpdate_history_len)
  moreover have "seen_count (toUpperCase b) (snd (upsert now dev r st)) = seen_count (toUpperCase b) st + 1"
    by (simp add: upsert_def Let_def k findOneAndUpdate_seen_count)
  ultimately show ?thesis
    by (simp add: processReport_store [OF f] Let_def history_len_findById seen_count_findById)
qed

lemma repeated_observation:
  assumes "r_bssid r = Some b" "b \<noteq> []"
  shows "history_len (toUpperCase b) (fst (scan_loop now dev all (replicate k r) s)) =
           history_len (toUpperCase b) (fst s) + k
       \<and> seen_count (toUpperCase b) (fst (scan_loop now dev all (replicate k r) s)) =
           seen_count (toUpperCase b) (fst s) + int k"
proof (induction k arbitrary: s)
  case 0
  then show ?case by simp
next
  case (Suc k)
  obtain st res where s: "s = (st, res)" by (cases s)
  show ?case
    using Suc.IH [of "processReport now dev all r (st, res)"]
      processReport_observation [OF assms, of now dev all st res]
    by (simp add: s)
qed

lemma upper_66: "toUpperCase ''11:22:33:44:55:66'' = ''11:22:33:44:55:66''"
  by code_simp

text \<open>
  Claim C1. Every observation of a \<^verbatim>\<open>bssid\<close> adds one to the observation counter and one
  entry to the history. The update passes \<^verbatim>\<open>$slice: -20\<close> inside the pushed element, not
  beside \<^verbatim>\<open>$each\<close>, so nothing is evicted: after 21 observations of one \<^verbatim>\<open>bssid\<close> the
  history holds 21 entries.
\<close>

theorem history_exceeds_twenty:
  "history_len ''11:22:33:44:55:66''
     (snd (scan 5 None (Some (replicate 21 (Some officeNet_wpa2))) [])) = 21
   \<and> seen_count ''11:22:33:44:55:66''
     (snd (scan 5 None (Some (replicate 21 (Some officeNet_wpa2))) [])) = 21"
proof -
  have "history_len (toUpperCase ''11:22:33:44:55:66'')
      (fst (scan_loop 5 ''ESP8266_001'' [] (replicate 21 officeNet_wpa2) ([], initial_results)))
      = history_len (toUpperCase ''11:22:33:44:55:66'') [] + 21
    \<and> seen_count (toUpperCase ''11:22:33:44:55:66'')
      (fst (scan_loop 5 ''ESP8266_001'' [] (replicate 21 officeNet_wpa2) ([], initial_results)))
      = seen_count (toUpperCase ''11:22:33:44:55:66'') [] + 21"
    using repeated_observation [of officeNet_wpa2 "''11:22:33:44:55:66''" 5 "''ESP8266_001''" "[]" 21
        "([], initial_results)"]
    by (simp add: officeNet_wpa2_def)
  moreover have "reports_before_null (replicate 21 (Some officeNet_wpa2))
      = replicate 21 officeNet_wpa2"
    using reports_before_null_objects [of "replicate 21 officeNet_wpa2"] by simp
  ultimately show ?thesis
    by (simp add: scan_store upper_66 history_len_def seen_count_def)
qed

section \<open>The threat query\<close>

lemma collect_eq:
  "collect now networks xs acc =
     acc @ filter (\<lambda>a. harmScore a > 0 \<or> threats a \<noteq> []) (map (\<lambda>n. assessThreat now n networks (history n)) xs)"
  by (induction xs arbitrary: acc) (auto simp add: Let_def)

lemma length_filter_sort_key: "length (filter P (sort_key f xs)) = length (filter P xs)"
proof -
  have "mset (filter P (sort_key f xs)) = mset (filter P xs)" by simp
  then show ?thesis by (metis size_mset)
qed

lemma sorted_descending:
  "sorted_wrt (\<lambda>a b. harmScore a \<ge> harmScore b) (sort_key (\<lambda>a. - harmScore a) xs)"
proof -
  have "sorted (map (\<lambda>a. - harmScore a) (sort_key (\<lambda>a. - harmScore a) xs))"
    by (rule sorted_sort_key)
  then show ?thesis by (simp add: sorted_wrt_map sorted_wrt_iff_nth_less [symmetric] sorted_map)
qed

text \<open>
  Claim C8. The threat query assesses every stored record against the whole stored set,
  keeps exactly the assessments with a positive harm score or a finding, returns them by
  descending harm score, equal scores in the order the records were read, and counts those
  of each risk level and the harmful ones.
\<close>

theorem threat_query:
  "(let assessments = map (\<lambda>n. assessThreat now n st (history n)) st;
        found = filter (\<lambda>a. harmScore a > 0 \<or> threats a \<noteq> []) assessments;
        resp = getThreats now st
    in mset (tr_threats resp) = mset found
     \<and> sorted_wrt (\<lambda>a b. harmScore a \<ge> harmScore b) (tr_threats resp)
     \<and> (\<forall>k. filter (\<lambda>a. harmScore a = k) (tr_threats resp) = filter (\<lambda>a. harmScore a = k) found)
     \<and> critical_count (tr_summary resp) = length (filter (\<lambda>a. riskLevel a = critical) found)
     \<and> high_count (tr_summary resp) = length (filter (\<lambda>a. riskLevel a = high) found)
     \<and> medium_count (tr_summary resp) = length (filter (\<lambda>a. riskLevel a = medium) found)
     \<and> low_count (tr_summary resp) = length (filter (\<lambda>a. riskLevel a = low) found)
     \<and> harmful_count (tr_summary resp) = length (filter isHarmful found)
     \<and> totalNetworks resp = length st \<and> threatsAnalyzed resp = length found)"
proof -
  have stable: "filter (\<lambda>a. harmScore a = k) (sort_key (\<lambda>a. - harmScore a) xs)
      = filter (\<lambda>a. harmScore a = k) xs" for k and xs :: "assessment list"
    using sort_key_stable [of "\<lambda>a. - harmScore a" "- k" xs] by simp
  show ?thesis
    by (simp add: getThreats_def Let_def collect_eq length_filter_sort_key
        sorted_descending stable)
qed

theorem threat_query_witness:
  "map harmScore (tr_threats (getThreats 7 [officeNet_wpa2_record, officeNet_open_record])) = [75]
   \<and> critical_count (tr_summary (getThreats 7 [officeNet_wpa2_record, officeNet_open_record])) = 1
   \<and> harmful_count (tr_summary (getThreats 7 [officeNet_wpa2_record, officeNet_open_record])) = 1
   \<and> totalNetworks (getThreats 7 [officeNet_wpa2_record, officeNet_open_record]) = 2"
proof -
  let ?A = "assessThreat 7 officeNet_wpa2_record
      [officeNet_wpa2_record, officeNet_open_record] (history officeNet_wpa2_record)"
  let ?B = "assessThreat 7 officeNet_open_record
      [officeNet_wpa2_record, officeNet_open_record] (history officeNet_open_record)"
  have facts: "harmScore ?B = 75" "riskLevel ?B = critical" "harmScore ?A = 0" "threats ?A = []"
    by (rule officeNet_pair)+
  have h: "isHarmful ?B"
    unfolding assessThreat_isHarmful facts by simp
  show ?thesis
    using threat_query [of 7 "[officeNet_wpa2_record, officeNet_open_record]"] facts h
    by (simp add: Let_def)
qed

end
